theory Spec2Isabelle
  imports Complex_Main "HOL-Library.AList" "HOL-Library.Extended_Nat"
begin

section \<open>JavaScript numbers\<close>

text \<open>
  The program computes with JavaScript numbers. The model keeps the finite values exact
  (rationals), and keeps the three special values that the code can produce and that decide
  its comparisons: \<open>NaN\<close> (also what arithmetic makes of \<open>undefined\<close>) and the two
  infinities. Rounding of binary floating point and the sign of zero are outside the model.
\<close>

datatype jsnum = Num rat | PInf | NInf | NaN

fun jneg :: "jsnum \<Rightarrow> jsnum" where
  "jneg (Num a) = Num (- a)"
| "jneg PInf = NInf"
| "jneg NInf = PInf"
| "jneg NaN = NaN"

text \<open>\<open>a + b\<close>\<close>

fun jadd :: "jsnum \<Rightarrow> jsnum \<Rightarrow> jsnum" where
  "jadd (Num a) (Num b) = Num (a + b)"
| "jadd NaN _ = NaN"
| "jadd _ NaN = NaN"
| "jadd PInf NInf = NaN"
| "jadd NInf PInf = NaN"
| "jadd PInf _ = PInf"
| "jadd _ PInf = PInf"
| "jadd NInf _ = NInf"
| "jadd _ NInf = NInf"

text \<open>\<open>a - b\<close>\<close>

definition jsub :: "jsnum \<Rightarrow> jsnum \<Rightarrow> jsnum" where
  "jsub a b = jadd a (jneg b)"

text \<open>The sign of a number that is not \<open>NaN\<close>.\<close>

fun jsign :: "jsnum \<Rightarrow> int" where
  "jsign (Num a) = (if a = 0 then 0 else if 0 < a then 1 else - 1)"
| "jsign PInf = 1"
| "jsign NInf = - 1"
| "jsign NaN = 0"

text \<open>\<open>a * b\<close>: a product with an infinity is infinite with the product of the signs,
  and \<open>0 * Infinity\<close> is \<open>NaN\<close>.\<close>

fun jmul :: "jsnum \<Rightarrow> jsnum \<Rightarrow> jsnum" where
  "jmul (Num a) (Num b) = Num (a * b)"
| "jmul NaN _ = NaN"
| "jmul _ NaN = NaN"
| "jmul x y =
     (let s = jsign x * jsign y
      in if s = 0 then NaN else if 0 < s then PInf else NInf)"

text \<open>\<open>a / b\<close>: \<open>0 / 0\<close> is \<open>NaN\<close>, any other finite number over zero is infinite.\<close>

fun jdiv :: "jsnum \<Rightarrow> jsnum \<Rightarrow> jsnum" where
  "jdiv (Num a) (Num b) =
     (if b \<noteq> 0 then Num (a / b)
      else if a = 0 then NaN else if 0 < a then PInf else NInf)"
| "jdiv NaN _ = NaN"
| "jdiv _ NaN = NaN"
| "jdiv (Num a) _ = Num 0"
| "jdiv PInf (Num b) = (if 0 \<le> b then PInf else NInf)"
| "jdiv NInf (Num b) = (if 0 \<le> b then NInf else PInf)"
| "jdiv _ _ = NaN"

text \<open>\<open>a < b\<close>: false as soon as one side is \<open>NaN\<close>.\<close>

fun jlt :: "jsnum \<Rightarrow> jsnum \<Rightarrow> bool" where
  "jlt (Num a) (Num b) = (a < b)"
| "jlt NaN _ = False"
| "jlt _ NaN = False"
| "jlt _ NInf = False"
| "jlt PInf _ = False"
| "jlt _ _ = True"

text \<open>\<open>a <= b\<close>\<close>

fun jle :: "jsnum \<Rightarrow> jsnum \<Rightarrow> bool" where
  "jle (Num a) (Num b) = (a \<le> b)"
| "jle NaN _ = False"
| "jle _ NaN = False"
| "jle NInf _ = True"
| "jle _ PInf = True"
| "jle _ _ = False"

text \<open>\<open>a > b\<close>\<close>

definition jgt :: "jsnum \<Rightarrow> jsnum \<Rightarrow> bool" where
  "jgt a b = jlt b a"

text \<open>\<open>a === b\<close> on numbers: \<open>NaN\<close> is not equal to itself.\<close>

definition jeq :: "jsnum \<Rightarrow> jsnum \<Rightarrow> bool" where
  "jeq a b = (a \<noteq> NaN \<and> a = b)"

text \<open>\<open>Math.floor\<close>, \<open>Math.ceil\<close>, \<open>Math.abs\<close>, \<open>Math.max\<close>, \<open>Math.min\<close>\<close>

fun Math_floor :: "jsnum \<Rightarrow> jsnum" where
  "Math_floor (Num a) = Num (of_int \<lfloor>a\<rfloor>)"
| "Math_floor x = x"

fun Math_ceil :: "jsnum \<Rightarrow> jsnum" where
  "Math_ceil (Num a) = Num (of_int \<lceil>a\<rceil>)"
| "Math_ceil x = x"

fun Math_abs :: "jsnum \<Rightarrow> jsnum" where
  "Math_abs (Num a) = Num \<bar>a\<bar>"
| "Math_abs NaN = NaN"
| "Math_abs _ = PInf"

definition Math_max :: "jsnum \<Rightarrow> jsnum \<Rightarrow> jsnum" where
  "Math_max a b = (if a = NaN \<or> b = NaN then NaN else if jlt a b then b else a)"

definition Math_min :: "jsnum \<Rightarrow> jsnum \<Rightarrow> jsnum" where
  "Math_min a b = (if a = NaN \<or> b = NaN then NaN else if jlt b a then b else a)"

section \<open>The resource graph (constants/resources.js)\<close>

text \<open>
  A resource declaration. \<open>components\<close> is the list of direct production dependencies; a
  declaration without the field is the empty list, since every use in the source treats a
  missing list as an empty one (\<open>!res.components || res.components.length === 0\<close>).
  \<open>rmin\<close> is the optional field \<open>min\<close> of the source, \<open>tier\<close> is absent in the raw
  declarations and filled in by the tier derivation. The presentation fields \<open>label\<close> and
  \<open>icon\<close> are not modelled.
\<close>

record resource =
  name :: string
  components :: "string list"
  rmin :: "jsnum option"
  tier :: "nat option"

definition rawResources :: "resource list" where
  "rawResources =
    [\<lparr>name = ''iron'', components = [], rmin = Some (Num 5), tier = None\<rparr>,
     \<lparr>name = ''coal'', components = [], rmin = Some (Num 10), tier = None\<rparr>,
     \<lparr>name = ''oil'', components = [], rmin = Some (Num 5), tier = None\<rparr>,
     \<lparr>name = ''steel'', components = [''iron'', ''coal''], rmin = None, tier = None\<rparr>,
     \<lparr>name = ''plastics'', components = [''oil'', ''coal''], rmin = None, tier = None\<rparr>,
     \<lparr>name = ''consumer_goods'', components = [''steel'', ''plastics''], rmin = None,
      tier = None\<rparr>]"

text \<open>\<open>Object.fromEntries(rs.map(r => [r.name, r]))\<close>: a later declaration of a name
  replaces an earlier one. The source builds this map twice, as \<open>rawMap\<close> over the raw
  declarations and as \<open>resourceMap\<close> over the exported resources.\<close>

definition rawMap :: "resource list \<Rightarrow> string \<rightharpoonup> resource" where
  "rawMap rs = map_of (rev (map (\<lambda>r. (name r, r)) rs))"

abbreviation (input) resourceMap :: "resource list \<Rightarrow> string \<rightharpoonup> resource" where
  "resourceMap \<equiv> rawMap"

subsection \<open>Tier derivation\<close>

text \<open>The two exceptions that \<open>computeTier\<close> throws.\<close>

datatype error = UnknownResource string | CircularDependency string

text \<open>\<open>Math.max(...compTiers)\<close>. The source calls it on the tiers of a non-empty component
  list only; tiers are at least 1, so starting the fold at 0 gives the maximum.\<close>

definition maxTier :: "nat list \<Rightarrow> nat" where
  "maxTier ts = fold max ts 0"

text \<open>
  \<open>computeTier(name)\<close> with its two module-level variables made explicit. \<open>tierCache\<close> is
  threaded through the calls and returned. \<open>visiting\<close> is passed down: the source adds the
  name before it maps over the components and deletes it afterwards, so that every call that
  returns leaves the set as it found it, and a call that throws ends the derivation.
  \<open>computeTiers\<close> is \<open>res.components.map(c => computeTier(c))\<close>.
\<close>

function computeTier ::
    "resource list \<Rightarrow> string set \<Rightarrow> string \<Rightarrow> (string \<rightharpoonup> nat) \<Rightarrow> error + nat \<times> (string \<rightharpoonup> nat)"
  and computeTiers ::
    "resource list \<Rightarrow> string set \<Rightarrow> string list \<Rightarrow> (string \<rightharpoonup> nat)
       \<Rightarrow> error + nat list \<times> (string \<rightharpoonup> nat)"
where
  "computeTier raw visiting nm tierCache =
     (case tierCache nm of
        Some t \<Rightarrow> Inr (t, tierCache)
      | None \<Rightarrow>
          (case rawMap raw nm of
             None \<Rightarrow> Inl (UnknownResource nm)
           | Some res \<Rightarrow>
               if nm \<in> visiting then Inl (CircularDependency nm)
               else if components res = [] then Inr (1, tierCache(nm \<mapsto> 1))
               else
                 (case computeTiers raw (insert nm visiting) (components res) tierCache of
                    Inl e \<Rightarrow> Inl e
                  | Inr (compTiers, tierCache') \<Rightarrow>
                      let t = maxTier compTiers + 1 in Inr (t, tierCache'(nm \<mapsto> t)))))"
| "computeTiers raw visiting [] tierCache = Inr ([], tierCache)"
| "computeTiers raw visiting (c # cs) tierCache =
     (case computeTier raw visiting c tierCache of
        Inl e \<Rightarrow> Inl e
      | Inr (t, tierCache') \<Rightarrow>
          (case computeTiers raw visiting cs tierCache' of
             Inl e \<Rightarrow> Inl e
           | Inr (ts, tierCache'') \<Rightarrow> Inr (t # ts, tierCache'')))"
  by pat_completeness auto
termination
proof (relation "inv_image (less_than <*lex*> less_than)
    (\<lambda>x. case x of
       Inl (raw, visiting, nm, tierCache) \<Rightarrow> (card (dom (rawMap raw) - visiting), 0)
     | Inr (raw, visiting, cs, tierCache) \<Rightarrow> (card (dom (rawMap raw) - visiting), Suc (length cs)))",
    goal_cases)
  case 1
  show ?case by (intro wf_inv_image wf_lex_prod wf_less_than)
next
  case (2 raw visiting nm tierCache res)
  have fin: "finite (dom (rawMap raw) - visiting)" by (simp add: rawMap_def finite_dom_map_of)
  from 2 have "dom (rawMap raw) - insert nm visiting \<subset> dom (rawMap raw) - visiting"
    by auto
  from psubset_card_mono [OF fin this] show ?case by simp
next
  case 3
  then show ?case by simp
next
  case 4
  then show ?case by simp
qed

text \<open>\<open>rawResources.forEach(r => computeTier(r.name))\<close>, starting from the empty cache, and
  the exported list \<open>resources\<close>, each declaration with its tier.\<close>

fun computeAll :: "resource list \<Rightarrow> resource list \<Rightarrow> (string \<rightharpoonup> nat) \<Rightarrow> error + (string \<rightharpoonup> nat)" where
  "computeAll raw [] tierCache = Inr tierCache"
| "computeAll raw (r # rs) tierCache =
     (case computeTier raw {} (name r) tierCache of
        Inl e \<Rightarrow> Inl e
      | Inr (t, tierCache') \<Rightarrow> computeAll raw rs tierCache')"

definition resources :: "resource list \<Rightarrow> error + resource list" where
  "resources raw =
     (case computeAll raw raw Map.empty of
        Inl e \<Rightarrow> Inl e
      | Inr tierCache \<Rightarrow> Inr (map (\<lambda>r. r\<lparr>tier := tierCache (name r)\<rparr>) raw))"


subsection \<open>Correctness of the tier derivation\<close>




declare computeTier.simps [simp del]








lemma rawMap_distinct:
  assumes "distinct (map name raw)" and "r \<in> set raw"
  shows "rawMap raw (name r) = Some r"
proof -
  have "map fst (rev (map (\<lambda>r. (name r, r)) raw)) = rev (map name raw)"
    by (simp add: rev_map comp_def)
  with assms(1) have "distinct (map fst (rev (map (\<lambda>r. (name r, r)) raw)))" by simp
  moreover from assms(2) have "(name r, r) \<in> set (rev (map (\<lambda>r. (name r, r)) raw))" by auto
  ultimately show ?thesis unfolding rawMap_def by simp
qed

























section \<open>The resource state engine (hooks/useResources.js)\<close>

text \<open>The value store: a JavaScript object from resource name to number, in insertion
  order. Reading a missing key gives \<open>undefined\<close>, here \<open>None\<close>.\<close>

type_synonym valuemap = "(string \<times> jsnum) list"

text \<open>\<open>sum += x\<close> where \<open>x\<close> may be \<open>undefined\<close>: adding \<open>undefined\<close> gives \<open>NaN\<close>.\<close>

definition orNaN :: "jsnum option \<Rightarrow> jsnum" where
  "orNaN x = (case x of None \<Rightarrow> NaN | Some v \<Rightarrow> v)"

text \<open>\<open>resource.min || 5\<close>: a missing, zero or \<open>NaN\<close> minimum is replaced by 5.\<close>

definition baseMin :: "resource \<Rightarrow> jsnum" where
  "baseMin resource =
     (case rmin resource of
        None \<Rightarrow> Num 5
      | Some m \<Rightarrow> if m = Num 0 \<or> m = NaN then Num 5 else m)"

text \<open>
  \<open>computeMin(resource, currentValues)\<close>. The second argument is \<open>None\<close> when the caller
  passes \<open>null\<close> or \<open>undefined\<close> for the whole map: that is the only case in which the
  source adds 0.
\<close>

definition computeMin :: "resource \<Rightarrow> valuemap option \<Rightarrow> jsnum" where
  "computeMin resource currentValues =
     (if components resource = [] then baseMin resource
      else fold (\<lambda>c sum. jadd sum (case currentValues of
                                       None \<Rightarrow> Num 0
                                     | Some vs \<Rightarrow> orNaN (map_of vs c)))
             (components resource) (Num 0))"

section \<open>Properties of \<open>computeMin\<close>\<close>

lemma jadd_NaN_left [simp]: "jadd NaN x = NaN"
  by (cases x) simp_all

lemma jadd_NaN_right [simp]: "jadd x NaN = NaN"
  by (cases x) simp_all

lemma fold_jadd_NaN:
  "fold (\<lambda>c sum. jadd sum (f c)) cs NaN = NaN"
  by (induction cs) simp_all

lemma fold_jadd_absent:
  assumes "c \<in> set cs" and "f c = NaN"
  shows "fold (\<lambda>c sum. jadd sum (f c)) cs acc = NaN"
  using assms
proof (induction cs arbitrary: acc)
  case Nil
  then show ?case by simp
next
  case (Cons d ds)
  show ?case
  proof (cases "d = c")
    case True
    with Cons.prems show ?thesis by (simp add: fold_jadd_NaN)
  next
    case False
    with Cons.prems have "c \<in> set ds" by simp
    from Cons.IH [OF this Cons.prems(2)] show ?thesis by simp
  qed
qed

lemma fold_jadd_Num:
  assumes "\<forall>c \<in> set cs. f c = Num (g c)"
  shows "fold (\<lambda>c sum. jadd sum (f c)) cs (Num acc) = Num (acc + sum_list (map g cs))"
  using assms
proof (induction cs arbitrary: acc)
  case Nil
  then show ?case by simp
next
  case (Cons d ds)
  then have "f d = Num (g d)" and rest: "\<forall>c \<in> set ds. f c = Num (g c)" by simp_all
  then show ?case using Cons.IH [OF rest, of "acc + g d"] by (simp add: add.assoc)
qed

text \<open>
  Claim C6, as the source has it. Without components the result is the base minimum.
  With components it is the sum of the components' values when each of them is present in
  the map with a finite value; a component that is absent from a map that is there makes the
  result \<open>NaN\<close> (it does not count as 0); only when the whole map is missing does each
  component count as 0.
\<close>

theorem computeMin_spec:
  "(components r = [] \<longrightarrow> computeMin r cv = baseMin r) \<and>
   (components r \<noteq> [] \<and> (\<forall>c \<in> set (components r). map_of vs c = Some (Num (g c)))
      \<longrightarrow> computeMin r (Some vs) = Num (sum_list (map g (components r)))) \<and>
   (components r \<noteq> [] \<and> (\<exists>c \<in> set (components r). map_of vs c = None)
      \<longrightarrow> computeMin r (Some vs) = NaN) \<and>
   (components r \<noteq> [] \<longrightarrow> computeMin r None = Num 0)"
proof (intro conjI impI)
  assume "components r = []"
  then show "computeMin r cv = baseMin r" by (simp add: computeMin_def)
next
  assume h: "components r \<noteq> [] \<and> (\<forall>c \<in> set (components r). map_of vs c = Some (Num (g c)))"
  then have "\<forall>c \<in> set (components r). orNaN (map_of vs c) = Num (g c)"
    by (simp add: orNaN_def)
  from fold_jadd_Num [OF this, of 0] h
  show "computeMin r (Some vs) = Num (sum_list (map g (components r)))"
    by (simp add: computeMin_def)
next
  assume h: "components r \<noteq> [] \<and> (\<exists>c \<in> set (components r). map_of vs c = None)"
  then obtain c where c: "c \<in> set (components r)" and "map_of vs c = None" by blast
  then have "orNaN (map_of vs c) = NaN" by (simp add: orNaN_def)
  from fold_jadd_absent [OF c, of "\<lambda>c. orNaN (map_of vs c)", OF this] h
  show "computeMin r (Some vs) = NaN" by (simp add: computeMin_def)
next
  assume "components r \<noteq> []"
  moreover have "fold (\<lambda>c sum. jadd sum (Num 0)) cs (Num 0) = Num 0" for cs :: "string list"
    using fold_jadd_Num [of cs "\<lambda>c. Num 0" "\<lambda>c. 0" 0] by simp
  ultimately show "computeMin r None = Num 0" by (simp add: computeMin_def)
qed

text \<open>The theorem at the configured resource \<open>steel\<close>: with iron at 5 and coal at 10 the
  minimum is 15; with coal missing from the map it is \<open>NaN\<close>.\<close>

theorem computeMin_spec_witness:
  "computeMin (rawResources ! 3) (Some [(''iron'', Num 5), (''coal'', Num 10)]) = Num 15 \<and>
   computeMin (rawResources ! 3) (Some [(''iron'', Num 5)]) = NaN \<and>
   computeMin (rawResources ! 0) (Some []) = Num 5"
  using computeMin_spec [where r = "rawResources ! 3"
      and vs = "[(''iron'', Num 5), (''coal'', Num 10)]"
      and g = "\<lambda>c. if c = ''iron'' then 5 else 10"]
    computeMin_spec [where r = "rawResources ! 3" and vs = "[(''iron'', Num 5)]"]
    computeMin_spec [where r = "rawResources ! 0" and cv = "Some []"]
  by (simp add: rawResources_def baseMin_def)

text \<open>Claim C6 as the specification words it fails: a component that is absent from the
  values map does not contribute 0. With iron at 5 and coal absent, the claimed minimum of
  steel is 5; the source returns \<open>NaN\<close>.\<close>

theorem computeMin_absent_counterexample:
  "computeMin \<lparr>name = ''steel'', components = [''iron'', ''coal''], rmin = None, tier = None\<rparr>
     (Some [(''iron'', Num 5)]) \<noteq> Num 5"
  by (simp add: computeMin_def orNaN_def)

section \<open>Mutations of the resource state (hooks/useResources.js)\<close>

text \<open>\<open>dependentsMap\<close>: for a component name, the names of the resources that list it, in
  declaration order, once for every time it is listed; a name without dependents gives the
  empty list (\<open>dependentsMap[current] || []\<close>).\<close>

definition dependentsMap :: "resource list \<Rightarrow> string \<Rightarrow> string list" where
  "dependentsMap resourceData c =
     concat (map (\<lambda>r. map (\<lambda>_. name r) (filter (\<lambda>c'. c' = c) (components r))) resourceData)"

text \<open>One record of a change-group: \<open>{name, prevValue, nextValue, cascading}\<close>, the field
  \<open>name\<close> written \<open>cname\<close>. \<open>prevValue\<close> is \<open>None\<close> when the key was not in the value store.\<close>

record change =
  cname :: string
  prevValue :: "jsnum option"
  nextValue :: jsnum
  cascading :: bool

text \<open>The three pieces of state of the hook: the value store, the history of every
  resource and the action log, a list of change-groups.\<close>

record engine =
  "values" :: valuemap
  histories :: "(string \<times> jsnum list) list"
  actionLog :: "change list list"

text \<open>
  The second argument of \<open>setResourceValue\<close> is a value or a function of the previous value.
  Of a value the source observes its type and, of a string \<open>s\<close>, whether \<open>s.trim()\<close> is empty
  and what \<open>Number(s)\<close> is: \<open>JString blank parsed\<close> carries these two observations. Everything
  that is neither a number nor a string is \<open>JOther\<close>.
\<close>

datatype jsval = JNumber jsnum | JString bool jsnum | JOther

datatype valueOrUpdater = Direct jsval | Updater "jsnum option \<Rightarrow> jsval"

text \<open>The first lines of the updater: resolve the proposed value, coerce a numeric-looking
  string, and reject (\<open>None\<close>) whatever is not a number or is \<open>NaN\<close>.\<close>

definition resolveNext :: "valueOrUpdater \<Rightarrow> jsnum option \<Rightarrow> jsnum option" where
  "resolveNext valueOrUpdater prev =
     (let next = (case valueOrUpdater of Updater f \<Rightarrow> f prev | Direct v \<Rightarrow> v);
          next' = (case next of
                     JString blank parsed \<Rightarrow>
                       if \<not> blank \<and> parsed \<noteq> NaN then JNumber parsed else next
                   | _ \<Rightarrow> next)
      in case next' of
           JNumber n \<Rightarrow> if n = NaN then None else Some n
         | _ \<Rightarrow> None)"

text \<open>
  The cascade. \<open>cascadeDependents\<close> is the inner \<open>for\<close> loop over the dependents of the
  resource taken from the queue: a dependent below its freshly computed minimum is raised to
  it and recorded, and joins the queue unless it was visited before. \<open>cascade\<close> is the outer
  \<open>while (queue.length)\<close> loop.
\<close>

type_synonym cascade_state = "valuemap \<times> change list \<times> string list \<times> string set"

fun cascadeDependents :: "resource list \<Rightarrow> string list \<Rightarrow> cascade_state \<Rightarrow> cascade_state" where
  "cascadeDependents resourceData [] s = s"
| "cascadeDependents resourceData (depName # dependents) (newVals, cascadeAdjustments, queue, visited) =
     (case resourceMap resourceData depName of
        None \<Rightarrow> cascadeDependents resourceData dependents (newVals, cascadeAdjustments, queue, visited)
      | Some depResource \<Rightarrow>
          let depMin = computeMin depResource (Some newVals);
              depPrev = map_of newVals depName
          in if jlt (orNaN depPrev) depMin
             then
               let newVals' = AList.update depName depMin newVals;
                   cascadeAdjustments' = cascadeAdjustments @
                     [\<lparr>cname = depName, prevValue = depPrev, nextValue = depMin, cascading = False\<rparr>]
               in if depName \<notin> visited
                  then cascadeDependents resourceData dependents
                         (newVals', cascadeAdjustments', queue @ [depName], insert depName visited)
                  else cascadeDependents resourceData dependents
                         (newVals', cascadeAdjustments', queue, visited)
             else cascadeDependents resourceData dependents (newVals, cascadeAdjustments, queue, visited))"

function cascade ::
  "resource list \<Rightarrow> string list \<Rightarrow> string set \<Rightarrow> valuemap \<Rightarrow> change list \<Rightarrow> valuemap \<times> change list"
where
  "cascade resourceData [] visited newVals cascadeAdjustments = (newVals, cascadeAdjustments)"
| "cascade resourceData (current # queue) visited newVals cascadeAdjustments =
     (case cascadeDependents resourceData (dependentsMap resourceData current)
             (newVals, cascadeAdjustments, queue, visited) of
        (newVals', cascadeAdjustments', queue', visited') \<Rightarrow>
          cascade resourceData queue' visited' newVals' cascadeAdjustments')"
  by pat_completeness auto
termination
proof -
  have fin: "finite (dom (resourceMap resourceData) - vis)" for resourceData vis
    by (simp add: rawMap_def finite_dom_map_of)
  have step: "cascadeDependents resourceData ds s = (newVals', adj', queue', visited') \<Longrightarrow>
      length queue' + card (dom (resourceMap resourceData) - visited')
        \<le> length (fst (snd (snd s))) + card (dom (resourceMap resourceData) - snd (snd (snd s)))"
    for resourceData ds s newVals' adj' queue' visited'
  proof (induction resourceData ds s rule: cascadeDependents.induct)
    case (1 resourceData s)
    then show ?case by auto
  next
    case (2 resourceData depName dependents newVals cascadeAdjustments queue visited)
    show ?case
    proof (cases "resourceMap resourceData depName")
      case None
      with 2 show ?thesis by simp
    next
      case (Some depResource)
      show ?thesis
      proof (cases "jlt (orNaN (map_of newVals depName)) (computeMin depResource (Some newVals))")
        case False
        with Some 2 show ?thesis by simp
      next
        case lt: True
        show ?thesis
        proof (cases "depName \<in> visited")
          case True
          with Some lt 2 show ?thesis by (simp add: Let_def)
        next
          case False
          from False Some have "dom (resourceMap resourceData) - insert depName visited
              \<subset> dom (resourceMap resourceData) - visited" by auto
          from psubset_card_mono [OF fin this]
          have "Suc (card (dom (resourceMap resourceData) - insert depName visited))
              \<le> card (dom (resourceMap resourceData) - visited)" by simp
          moreover from False Some lt "2.prems"
          have "cascadeDependents resourceData dependents
                  (AList.update depName (computeMin depResource (Some newVals)) newVals,
                   cascadeAdjustments @
                     [\<lparr>cname = depName, prevValue = map_of newVals depName,
                       nextValue = computeMin depResource (Some newVals), cascading = False\<rparr>],
                   queue @ [depName], insert depName visited)
                = (newVals', adj', queue', visited')"
            by (simp add: Let_def)
          from "2.IH"(2) [OF Some refl refl lt refl refl False this]
          have "length queue' + card (dom (resourceMap resourceData) - visited')
              \<le> Suc (length queue) + card (dom (resourceMap resourceData) - insert depName visited)"
            by simp
          ultimately show ?thesis by simp
        qed
      qed
    qed
  qed
  show ?thesis
  proof (relation "measure (\<lambda>(resourceData, queue, visited, newVals, cascadeAdjustments).
      length queue + card (dom (resourceMap resourceData) - visited))", goal_cases)
    case 1
    show ?case by simp
  next
    case (2 resourceData current queue visited newVals cascadeAdjustments x y xa ya xb yb)
    then have "cascadeDependents resourceData (dependentsMap resourceData current)
        (newVals, cascadeAdjustments, queue, visited) = (x, xa, xb, yb)" by simp
    from step [OF this] show ?case by simp
  qed
qed

declare cascade.simps [simp del]

text \<open>The history update: one sample appended per record of the group.\<close>

definition appendHistories ::
  "change list \<Rightarrow> (string \<times> jsnum list) list \<Rightarrow> (string \<times> jsnum list) list" where
  "appendHistories grouped prevHist =
     fold (\<lambda>ch updated.
            AList.update (cname ch)
              ((case map_of updated (cname ch) of None \<Rightarrow> [] | Some arr \<Rightarrow> arr) @ [nextValue ch])
              updated)
       grouped prevHist"

text \<open>
  \<open>setResourceValue(name, valueOrUpdater)\<close>. The minimum used for clamping comes from
  \<open>getBounds\<close>, which reads the \<open>values\<close> of the render in which the callback was created:
  this is the argument \<open>rendered\<close>. The updater passed to \<open>setValues\<close> runs on the latest
  state, here \<open>st\<close>. When one render makes one call, \<open>rendered\<close> is \<open>values st\<close>; several
  calls made from the same render share \<open>rendered\<close> while \<open>st\<close> moves on.
\<close>

definition setResourceValue ::
  "resource list \<Rightarrow> bool \<Rightarrow> valuemap \<Rightarrow> string \<Rightarrow> valueOrUpdater \<Rightarrow> engine \<Rightarrow> engine" where
  "setResourceValue resourceData ignoreMin rendered nm valueOrUpdater st =
     (case resourceMap resourceData nm of
        None \<Rightarrow> st
      | Some resource \<Rightarrow>
          (let minimum = computeMin resource (Some rendered);
               prevVals = values st;
               prev = map_of prevVals nm
           in (case resolveNext valueOrUpdater prev of
                 None \<Rightarrow> st
               | Some nv \<Rightarrow>
                   (let next = (if \<not> ignoreMin \<and> jlt nv minimum then minimum else nv);
                        newVals = AList.update nm next prevVals;
                        primaryChange = \<lparr>cname = nm, prevValue = prev, nextValue = next,
                                         cascading = False\<rparr>
                    in (case (if \<not> ignoreMin \<and> jgt next (orNaN prev)
                              then cascade resourceData [nm] {nm} newVals []
                              else (newVals, [])) of
                          (newVals', cascadeAdjustments) \<Rightarrow>
                            (let grouped = primaryChange #
                                   map (\<lambda>a. a\<lparr>cascading := True\<rparr>) cascadeAdjustments
                             in \<lparr>values = newVals',
                                 histories = appendHistories grouped (histories st),
                                 actionLog = actionLog st @ [grouped]\<rparr>))))))"

text \<open>
  \<open>undoLastChange()\<close>. \<open>stripTail\<close> is the loop that drops trailing history samples while
  they are among the values being undone. \<open>assign\<close> is \<open>updated[name] = prevValue\<close>; storing
  \<open>undefined\<close> is modelled by removing the key, after which the key reads as \<open>undefined\<close>
  as it does in the source (the two differ only in the enumeration of keys).
\<close>

definition stripTail :: "jsnum set \<Rightarrow> jsnum list \<Rightarrow> jsnum list" where
  "stripTail lastAppliedNextValues arr = rev (dropWhile (\<lambda>v. v \<in> lastAppliedNextValues) (rev arr))"

definition assign :: "string \<Rightarrow> jsnum option \<Rightarrow> valuemap \<Rightarrow> valuemap" where
  "assign nm v vals = (case v of None \<Rightarrow> AList.delete nm vals | Some x \<Rightarrow> AList.update nm x vals)"

definition undoHistory ::
  "change list \<Rightarrow> string \<Rightarrow> (string \<times> jsnum list) list \<Rightarrow> (string \<times> jsnum list) list" where
  "undoHistory changes nm updated =
     (let relevant = filter (\<lambda>c. cname c = nm) changes;
          lastAppliedNextValues = set (map nextValue relevant);
          arr = (case map_of updated nm of None \<Rightarrow> [] | Some a \<Rightarrow> a)
      in AList.update nm (stripTail lastAppliedNextValues arr) updated)"

definition undoLastChange :: "engine \<Rightarrow> engine" where
  "undoLastChange st =
     (let prev = actionLog st
      in if prev = [] then st
         else
           (let newLog = butlast prev;
                lastGroup = last prev;
                changes = rev lastGroup;
                vals = fold (\<lambda>ch updated. assign (cname ch) (prevValue ch) updated) changes
                         (values st);
                touched = rev (remdups (rev (map cname changes)));
                hist = fold (undoHistory changes) touched (histories st)
            in \<lparr>values = vals, histories = hist, actionLog = newLog\<rparr>))"

text \<open>\<open>buildInitial()\<close>, the state that \<open>resetResources\<close> installs, and the configured
  resources with their tiers (\<open>resourceData\<close> in the hook, \<open>resourceList\<close> in App.jsx).\<close>

definition buildInitial :: "resource list \<Rightarrow> engine" where
  "buildInitial resourceData =
     (let initVals = fold (\<lambda>r initVals. AList.update (name r) (computeMin r (Some initVals)) initVals)
                       resourceData [];
          initHist = fold (\<lambda>r initHist.
                        AList.update (name r) [orNaN (map_of initVals (name r))] initHist)
                       resourceData []
      in \<lparr>values = initVals, histories = initHist, actionLog = []\<rparr>)"

definition resourceList :: "resource list" where
  "resourceList = (case resources rawResources of Inl e \<Rightarrow> [] | Inr rs \<Rightarrow> rs)"


section \<open>Undo\<close>

text \<open>The values that a change-group wrote to a resource.\<close>

definition writtenValues :: "change list \<Rightarrow> string \<Rightarrow> jsnum set" where
  "writtenValues grouped nm = nextValue ` {ch \<in> set grouped. cname ch = nm}"

text \<open>Undoing a list of records on the value store, seen as a map.\<close>

definition revertMap :: "change list \<Rightarrow> (string \<rightharpoonup> jsnum) \<Rightarrow> (string \<rightharpoonup> jsnum)" where
  "revertMap changes m = fold (\<lambda>ch m. m(cname ch := prevValue ch)) changes m"

lemma map_of_assign: "map_of (assign nm v vals) = (map_of vals)(nm := v)"
  by (cases v) (simp_all add: assign_def update_conv' delete_conv')

lemma map_of_fold_assign:
  "map_of (fold (\<lambda>ch updated. assign (cname ch) (prevValue ch) updated) changes vals)
     = revertMap changes (map_of vals)"
  unfolding revertMap_def
  by (induction changes arbitrary: vals) (simp_all add: map_of_assign)

lemma revertMap_append: "revertMap (xs @ ys) m = revertMap ys (revertMap xs m)"
  by (simp add: revertMap_def)

lemma revertMap_cascading:
  "revertMap (map (\<lambda>a. a\<lparr>cascading := True\<rparr>) changes) m = revertMap changes m"
  unfolding revertMap_def by (induction changes arbitrary: m) simp_all

text \<open>Reverting the cascade records, newest first, leads back to the map the cascade
  started from.\<close>

lemma cascadeDependents_revert:
  assumes "cascadeDependents rd ds (newVals, adj, queue, visited) = (newVals', adj', queue', visited')"
    and "revertMap (rev adj) (map_of newVals) = m"
  shows "revertMap (rev adj') (map_of newVals') = m"
  using assms
proof (induction ds arbitrary: newVals adj queue visited)
  case Nil
  then show ?case by simp
next
  case (Cons depName ds)
  show ?case
  proof (cases "resourceMap rd depName")
    case None
    with Cons show ?thesis by simp
  next
    case (Some depResource)
    let ?depMin = "computeMin depResource (Some newVals)"
    show ?thesis
    proof (cases "jlt (orNaN (map_of newVals depName)) ?depMin")
      case False
      with Some Cons show ?thesis by simp
    next
      case True
      let ?nv = "AList.update depName ?depMin newVals"
      let ?adj = "adj @ [\<lparr>cname = depName, prevValue = map_of newVals depName,
                          nextValue = ?depMin, cascading = False\<rparr>]"
      have "(map_of ?nv)(depName := map_of newVals depName) = map_of newVals"
        by (auto simp: update_conv')
      with Cons.prems(2) have inv: "revertMap (rev ?adj) (map_of ?nv) = m"
        by (simp add: revertMap_def)
      from Cons.prems(1) Some True obtain q v where
        "cascadeDependents rd ds (?nv, ?adj, q, v) = (newVals', adj', queue', visited')"
        by (auto simp: Let_def split: if_splits)
      from Cons.IH [OF this inv] show ?thesis .
    qed
  qed
qed

lemma cascade_revert:
  assumes "cascade rd queue visited newVals adj = (newVals', adj')"
    and "revertMap (rev adj) (map_of newVals) = m"
  shows "revertMap (rev adj') (map_of newVals') = m"
  using assms
proof (induction rd queue visited newVals adj rule: cascade.induct)
  case (1 rd visited newVals cascadeAdjustments)
  then show ?case by (simp add: cascade.simps)
next
  case (2 rd current queue visited newVals cascadeAdjustments)
  obtain nv1 adj1 q1 v1 where step:
    "cascadeDependents rd (dependentsMap rd current)
       (newVals, cascadeAdjustments, queue, visited) = (nv1, adj1, q1, v1)"
    by (metis prod_cases4)
  from cascadeDependents_revert [OF step "2.prems"(2)]
  have inv: "revertMap (rev adj1) (map_of nv1) = m" .
  from "2.prems"(1) step have "cascade rd q1 v1 nv1 adj1 = (newVals', adj')"
    by (simp add: cascade.simps)
  from "2.IH" [OF step [symmetric] refl refl this inv] show ?case .
qed

lemma stripTail_append:
  assumes "set ws \<subseteq> S"
  shows "stripTail S (arr @ ws) = stripTail S arr"
proof -
  from assms have "dropWhile (\<lambda>v. v \<in> S) (rev ws @ rev arr) = dropWhile (\<lambda>v. v \<in> S) (rev arr)"
    by (intro dropWhile_append2) auto
  then show ?thesis by (simp add: stripTail_def)
qed

lemma stripTail_id:
  assumes "arr = [] \<or> last arr \<notin> S"
  shows "stripTail S arr = arr"
proof (cases "arr = []")
  case True
  then show ?thesis by (simp add: stripTail_def)
next
  case False
  with assms have "hd (rev arr) \<notin> S" by (simp add: hd_rev)
  with False have "dropWhile (\<lambda>v. v \<in> S) (rev arr) = rev arr"
    by (cases "rev arr") simp_all
  then show ?thesis by (simp add: stripTail_def)
qed

definition orEmpty :: "jsnum list option \<Rightarrow> jsnum list" where
  "orEmpty x = (case x of None \<Rightarrow> [] | Some arr \<Rightarrow> arr)"

lemma map_of_appendHistories:
  "map_of (appendHistories grouped h) n =
     (if n \<in> cname ` set grouped
      then Some (orEmpty (map_of h n) @ map nextValue (filter (\<lambda>c. cname c = n) grouped))
      else map_of h n)"
proof (induction grouped arbitrary: h)
  case Nil
  then show ?case by (simp add: appendHistories_def)
next
  case (Cons ch grouped)
  let ?h = "AList.update (cname ch) (orEmpty (map_of h (cname ch)) @ [nextValue ch]) h"
  have unfold: "appendHistories (ch # grouped) h = appendHistories grouped ?h"
    by (simp add: appendHistories_def orEmpty_def)
  show ?case
    unfolding unfold Cons.IH
    by (auto simp: update_conv' orEmpty_def filter_empty_conv image_iff)
qed

lemma map_of_undoHistory:
  "map_of (undoHistory changes nm h) n =
     (if n = nm then Some (stripTail (writtenValues changes nm) (orEmpty (map_of h nm)))
      else map_of h n)"
proof -
  have "set (map nextValue (filter (\<lambda>c. cname c = nm) changes)) = writtenValues changes nm"
    by (auto simp: writtenValues_def)
  then show ?thesis
    by (simp add: undoHistory_def Let_def update_conv' orEmpty_def del: set_map set_filter)
qed

lemma map_of_undo_histories:
  assumes "distinct touched"
  shows "map_of (fold (undoHistory changes) touched h) n =
     (if n \<in> set touched
      then Some (stripTail (writtenValues changes n) (orEmpty (map_of h n)))
      else map_of h n)"
  using assms
proof (induction touched arbitrary: h)
  case Nil
  then show ?case by simp
next
  case (Cons t touched)
  from Cons.prems have d: "distinct touched" and nt: "t \<notin> set touched" by simp_all
  show ?case
    using nt by (auto simp: Cons.IH [OF d] map_of_undoHistory)
qed

lemma writtenValues_rev: "writtenValues (rev grouped) n = writtenValues grouped n"
  by (simp add: writtenValues_def)


lemma setResourceValue_applied:
  assumes res: "resourceMap rd nm = Some resource"
    and nv: "resolveNext arg (map_of (values st) nm) = Some v"
  obtains grouped where
    "actionLog (setResourceValue rd ignoreMin rendered nm arg st) = actionLog st @ [grouped]"
    "histories (setResourceValue rd ignoreMin rendered nm arg st)
       = appendHistories grouped (histories st)"
    "revertMap (rev grouped) (map_of (values (setResourceValue rd ignoreMin rendered nm arg st)))
       = map_of (values st)"
proof -
  define minimum where "minimum = computeMin resource (Some rendered)"
  define prev where "prev = map_of (values st) nm"
  define nxt where "nxt = (if \<not> ignoreMin \<and> jlt v minimum then minimum else v)"
  define newVals where "newVals = AList.update nm nxt (values st)"
  define primary where
    "primary = \<lparr>cname = nm, prevValue = prev, nextValue = nxt, cascading = False\<rparr>"
  define casc where "casc = (if \<not> ignoreMin \<and> jgt nxt (orNaN prev)
               then cascade rd [nm] {nm} newVals [] else (newVals, []))"
  obtain newVals' adj where casc_eq: "casc = (newVals', adj)" by (cases casc)
  define grouped where "grouped = primary # map (\<lambda>a. a\<lparr>cascading := True\<rparr>) adj"
  have st': "setResourceValue rd ignoreMin rendered nm arg st =
      \<lparr>values = newVals', histories = appendHistories grouped (histories st),
       actionLog = actionLog st @ [grouped]\<rparr>"
    using res nv casc_eq
    unfolding setResourceValue_def Let_def grouped_def primary_def casc_def newVals_def nxt_def
      prev_def minimum_def
    by simp
  have inv: "revertMap (rev adj) (map_of newVals') = map_of newVals"
  proof (cases "\<not> ignoreMin \<and> jgt nxt (orNaN prev)")
    case True
    with casc_eq have "cascade rd [nm] {nm} newVals [] = (newVals', adj)"
      by (simp add: casc_def)
    from cascade_revert [OF this, of "map_of newVals"] show ?thesis by (simp add: revertMap_def)
  next
    case False
    with casc_eq show ?thesis by (auto simp: revertMap_def casc_def)
  qed
  have "revertMap (rev grouped) (map_of newVals')
      = (revertMap (rev (map (\<lambda>a. a\<lparr>cascading := True\<rparr>) adj)) (map_of newVals'))(nm := prev)"
    by (simp add: grouped_def revertMap_append) (simp add: revertMap_def primary_def)
  also have "\<dots> = (revertMap (rev adj) (map_of newVals'))(nm := prev)"
    by (simp only: rev_map revertMap_cascading)
  also have "\<dots> = map_of (values st)"
    by (auto simp: inv newVals_def prev_def update_conv')
  finally have "revertMap (rev grouped) (map_of newVals') = map_of (values st)" .
  with st' that [of grouped] show thesis by simp
qed

text \<open>
  Claim C2, as the source has it. After a call of \<open>setResourceValue\<close> that is applied (the
  resource is known and the argument resolves to a number), \<open>undoLastChange\<close> restores the
  value of every resource and restores the action log, which is one entry shorter than after
  the call. The history of a resource is restored when it did not already end with one of the
  values that the call wrote to that resource: undo strips every trailing sample that equals
  such a value, not only the samples the call appended.
\<close>

theorem undo_roundtrip:
  assumes "resourceMap rd nm = Some resource"
    and "resolveNext arg (map_of (values st) nm) = Some v"
  shows "map_of (values (undoLastChange (setResourceValue rd ignoreMin rendered nm arg st)))
           = map_of (values st) \<and>
         actionLog (undoLastChange (setResourceValue rd ignoreMin rendered nm arg st))
           = actionLog st \<and>
         length (actionLog (setResourceValue rd ignoreMin rendered nm arg st))
           = Suc (length (actionLog (undoLastChange
                (setResourceValue rd ignoreMin rendered nm arg st)))) \<and>
         (\<forall>n arr. map_of (histories st) n = Some arr \<and>
              (arr = [] \<or> last arr \<notin> writtenValues
                  (last (actionLog (setResourceValue rd ignoreMin rendered nm arg st))) n)
            \<longrightarrow> map_of (histories (undoLastChange
                    (setResourceValue rd ignoreMin rendered nm arg st))) n = Some arr)"
proof -
  let ?st' = "setResourceValue rd ignoreMin rendered nm arg st"
  from setResourceValue_applied [OF assms, of ignoreMin rendered]
  obtain grouped where log: "actionLog ?st' = actionLog st @ [grouped]"
    and hist: "histories ?st' = appendHistories grouped (histories st)"
    and vals: "revertMap (rev grouped) (map_of (values ?st')) = map_of (values st)"
    by blast
  let ?touched = "rev (remdups (rev (map cname (rev grouped))))"
  have undo: "undoLastChange ?st' =
      \<lparr>values = fold (\<lambda>ch updated. assign (cname ch) (prevValue ch) updated) (rev grouped)
                  (values ?st'),
       histories = fold (undoHistory (rev grouped)) ?touched (histories ?st'),
       actionLog = actionLog st\<rparr>"
    by (simp add: undoLastChange_def Let_def log)
  have v: "map_of (values (undoLastChange ?st')) = map_of (values st)"
    by (simp add: undo map_of_fold_assign vals)
  have l: "actionLog (undoLastChange ?st') = actionLog st" by (simp add: undo)
  have h: "map_of (histories (undoLastChange ?st')) n = Some arr"
    if a: "map_of (histories st) n = Some arr"
      and b: "arr = [] \<or> last arr \<notin> writtenValues grouped n" for n arr
  proof (cases "n \<in> cname ` set grouped")
    case True
    have "set (map nextValue (filter (\<lambda>c. cname c = n) grouped)) \<subseteq> writtenValues grouped n"
      by (auto simp: writtenValues_def)
    then have "stripTail (writtenValues grouped n)
        (arr @ map nextValue (filter (\<lambda>c. cname c = n) grouped)) = arr"
      using b by (simp only: stripTail_append stripTail_id)
    with True a show ?thesis
      by (simp add: undo map_of_undo_histories hist map_of_appendHistories writtenValues_rev
          orEmpty_def)
  next
    case False
    with a show ?thesis
      by (simp add: undo map_of_undo_histories hist map_of_appendHistories)
  qed
  from v l h log show ?thesis by simp
qed


section \<open>The floor invariant\<close>

text \<open>A resource respects its floor when its computed minimum is at most its value.\<close>

definition floorOk :: "resource \<Rightarrow> valuemap \<Rightarrow> bool" where
  "floorOk r vals = jle (computeMin r (Some vals)) (orNaN (map_of vals (name r)))"

text \<open>The theorem at the configured resources: raising iron from 5 to 20 cascades to steel
  and consumer goods, and undo restores values, log and the history of steel.\<close>

theorem undo_roundtrip_witness:
  "resourceMap resourceList ''iron''
     = Some \<lparr>name = ''iron'', components = [], rmin = Some (Num 5), tier = Some 1\<rparr> \<and>
   resolveNext (Direct (JNumber (Num 20))) (map_of (values (buildInitial resourceList)) ''iron'')
     = Some (Num 20) \<and>
   map_of (values (setResourceValue resourceList False (values (buildInitial resourceList))
        ''iron'' (Direct (JNumber (Num 20))) (buildInitial resourceList))) ''steel''
     = Some (Num 30) \<and>
   map_of (values (undoLastChange (setResourceValue resourceList False
        (values (buildInitial resourceList)) ''iron'' (Direct (JNumber (Num 20)))
        (buildInitial resourceList))))
     = map_of (values (buildInitial resourceList)) \<and>
   actionLog (undoLastChange (setResourceValue resourceList False
        (values (buildInitial resourceList)) ''iron'' (Direct (JNumber (Num 20)))
        (buildInitial resourceList)))
     = actionLog (buildInitial resourceList) \<and>
   map_of (histories (undoLastChange (setResourceValue resourceList False
        (values (buildInitial resourceList)) ''iron'' (Direct (JNumber (Num 20)))
        (buildInitial resourceList)))) ''steel''
     = Some [Num 15]"
proof -
  have h1: "resourceMap resourceList ''iron''
     = Some \<lparr>name = ''iron'', components = [], rmin = Some (Num 5), tier = Some 1\<rparr>"
    by code_simp
  have h2: "resolveNext (Direct (JNumber (Num 20)))
      (map_of (values (buildInitial resourceList)) ''iron'') = Some (Num 20)"
    by code_simp
  have h3: "map_of (values (setResourceValue resourceList False
        (values (buildInitial resourceList)) ''iron'' (Direct (JNumber (Num 20)))
        (buildInitial resourceList))) ''steel'' = Some (Num 30)"
    by code_simp
  have h4: "map_of (histories (buildInitial resourceList)) ''steel'' = Some [Num 15]"
    by code_simp
  have h5: "last [Num 15] \<notin> writtenValues (last (actionLog (setResourceValue resourceList False
        (values (buildInitial resourceList)) ''iron'' (Direct (JNumber (Num 20)))
        (buildInitial resourceList)))) ''steel''"
    unfolding writtenValues_def by code_simp
  from undo_roundtrip [OF h1 h2, of False "values (buildInitial resourceList)"] h1 h2 h3 h4 h5
  show ?thesis by blast
qed

text \<open>Claim C2 as worded fails. Setting iron to 5 when it is 5 appends a second sample 5 to
  its history \<open>[5]\<close>; undo then strips both, and the history is empty, not \<open>[5]\<close>.\<close>

theorem undo_history_counterexample:
  "map_of (histories (buildInitial resourceList)) ''iron'' = Some [Num 5] \<and>
   map_of (histories (undoLastChange (setResourceValue resourceList False
        (values (buildInitial resourceList)) ''iron'' (Direct (JNumber (Num 5)))
        (buildInitial resourceList)))) ''iron'' = Some []"
  by code_simp

text \<open>
  Claim C1 at a failing input. From the initial state, where every floor holds, one render
  issues two calls, as \<open>onContractDecay\<close> does for a contract of 3 coal and 1 steel: coal is
  set to 12, which cascades steel to 17, and steel is set to 16. The second call clamps against
  the minimum of the render, 15, so that steel ends at 16, below iron + coal = 17.
\<close>

theorem floor_violated_by_stale_minimum:
  "list_all (\<lambda>r. floorOk r (values (buildInitial resourceList))) resourceList \<and>
   values
     (setResourceValue resourceList False (values (buildInitial resourceList)) ''steel''
        (Direct (JNumber (Num 16)))
        (setResourceValue resourceList False (values (buildInitial resourceList)) ''coal''
           (Direct (JNumber (Num 12))) (buildInitial resourceList)))
     = [(''iron'', Num 5), (''coal'', Num 12), (''oil'', Num 5), (''steel'', Num 16),
        (''plastics'', Num 17), (''consumer_goods'', Num 34)] \<and>
   \<not> floorOk \<lparr>name = ''steel'', components = [''iron'', ''coal''], rmin = None, tier = Some 2\<rparr>
     (values
       (setResourceValue resourceList False (values (buildInitial resourceList)) ''steel''
          (Direct (JNumber (Num 16)))
          (setResourceValue resourceList False (values (buildInitial resourceList)) ''coal''
             (Direct (JNumber (Num 12))) (buildInitial resourceList))))"
  by code_simp

section \<open>Contracts (hooks/useContracts.js)\<close>

text \<open>
  A contract. Its fields are those of the object that \<open>generateRandomContract\<close> returns,
  written with the prefix \<open>c\<close>. A label is a string drawn from the label pool or the
  positional name \<open>Contract N\<close>; \<open>NoLabel\<close> is \<open>undefined\<close>. The bundle \<open>resources\<close> is an
  object from resource name to quantity, in insertion order. \<open>maxResources\<close> is a count or
  \<open>Infinity\<close>.
\<close>

datatype label = Pool string | Positional int | NoLabel

record contract =
  cid :: int
  clabel :: label
  cvalue :: jsnum
  creward :: jsnum
  cresources :: "(string \<times> nat) list"
  cdifficulty :: jsnum
  crewardRange :: "jsnum \<times> jsnum"
  cmaxResources :: enat

text \<open>The state the contract hook works on: the resource state it reaches through
  \<open>setResourceValue\<close>, its contract collection and the target-value escalator.\<close>

record app =
  engineState :: engine
  contracts :: "contract list"
  currentTargetValue :: jsnum

text \<open>A call either throws (a \<open>TypeError\<close>) or returns.\<close>

datatype 'a outcome = Throws | Returns 'a

text \<open>\<open>Math.floor(Math.random() * n)\<close> for a random number \<open>u\<close>, reading an array at an
  index (\<open>undefined\<close> out of range), and
  \<open>selectedResources[name] = (selectedResources[name] || 0) + 1\<close>.\<close>

definition pickIndex :: "rat \<Rightarrow> nat \<Rightarrow> int" where
  "pickIndex u n = \<lfloor>u * of_nat n\<rfloor>"

definition elemAt :: "'a list \<Rightarrow> int \<Rightarrow> 'a option" where
  "elemAt xs i = (if 0 \<le> i \<and> i < int (length xs) then Some (xs ! nat i) else None)"

definition bump :: "string \<Rightarrow> (string \<times> nat) list \<Rightarrow> (string \<times> nat) list" where
  "bump resName selectedResources =
     AList.update resName
       ((case map_of selectedResources resName of None \<Rightarrow> 0 | Some n \<Rightarrow> n) + 1)
       selectedResources"

text \<open>
  The two accumulation loops. They need not terminate, so they are partial functions:
  \<open>None\<close> is a run that never returns. \<open>rnd\<close> is the sequence of random numbers the loop
  draws, \<open>i\<close> the position of the next one. In the specialist loop an index out of range
  reads \<open>undefined\<close>, which as a property key is the string \<open>undefined\<close>; in the general
  loop it makes the destructuring assignment throw.
\<close>

partial_function (option) specialistLoop ::
  "valuemap \<Rightarrow> jsnum \<Rightarrow> string list \<Rightarrow> (nat \<Rightarrow> rat) \<Rightarrow> nat \<Rightarrow> jsnum \<Rightarrow> (string \<times> nat) list
     \<Rightarrow> (jsnum \<times> (string \<times> nat) list) option"
where
  "specialistLoop vals scaledTarget specialistResource rnd i currentValue selectedResources =
     (if jlt currentValue scaledTarget
      then
        (let resName = (case elemAt specialistResource
                               (pickIndex (rnd i) (length specialistResource)) of
                          None \<Rightarrow> ''undefined''
                        | Some n \<Rightarrow> n);
             resValue = orNaN (map_of vals resName)
         in if jgt (jadd resValue currentValue) scaledTarget
            then Some (currentValue, selectedResources)
            else specialistLoop vals scaledTarget specialistResource rnd (Suc i)
                   (jadd currentValue resValue) (bump resName selectedResources))
      else Some (currentValue, selectedResources))"

partial_function (option) generalLoop ::
  "valuemap \<Rightarrow> jsnum \<Rightarrow> enat \<Rightarrow> (nat \<Rightarrow> rat) \<Rightarrow> nat \<Rightarrow> jsnum \<Rightarrow> (string \<times> nat) list
     \<Rightarrow> (jsnum \<times> (string \<times> nat) list) outcome option"
where
  "generalLoop vals scaledTarget maxResources rnd i currentValue selectedResources =
     (if jlt currentValue scaledTarget
      then
        (let resourceEntries =
               filter (\<lambda>(nm, val). jle (jadd val currentValue) scaledTarget \<and>
                         (enat (length selectedResources) < maxResources \<or>
                          map_of selectedResources nm \<noteq> None))
                 vals
         in if resourceEntries = [] then Some (Returns (currentValue, selectedResources))
            else
              (case elemAt resourceEntries (pickIndex (rnd i) (length resourceEntries)) of
                 None \<Rightarrow> Some Throws
               | Some (resourceName, resourceValue) \<Rightarrow>
                   generalLoop vals scaledTarget maxResources rnd (Suc i)
                     (jadd currentValue resourceValue) (bump resourceName selectedResources)))
      else Some (Returns (currentValue, selectedResources)))"

declare specialistLoop.simps [code]
declare generalLoop.simps [code]

text \<open>
  The random choices of one call of \<open>generateRandomContract\<close>, in the order of the calls of
  \<open>Math.random()\<close>. \<open>shuffled\<close> is the result of \<open>allResources.sort(() => 0.5 - Math.random())\<close>:
  what a sort with an inconsistent comparator returns depends on the engine, so the result
  is taken as given.
\<close>

record rolls =
  isSpecialistRoll :: rat
  numSpecialistsRoll :: rat
  shuffled :: "string list"
  picks :: "nat \<Rightarrow> rat"
  labelRoll :: rat
  rewardRoll :: rat

text \<open>The reward: \<open>minMult\<close>, \<open>maxMult\<close> and
  \<open>Math.floor(currentValue * (minMult + Math.random() * (maxMult - minMult)))\<close>.\<close>

definition minMult :: "jsnum \<Rightarrow> jsnum \<Rightarrow> jsnum" where
  "minMult rewardMinMultiplier rewardMaxMultiplier =
     Math_max (Num (1 / 10)) (Math_min rewardMinMultiplier rewardMaxMultiplier)"

definition maxMult :: "jsnum \<Rightarrow> jsnum \<Rightarrow> jsnum" where
  "maxMult rewardMinMultiplier rewardMaxMultiplier =
     Math_max (minMult rewardMinMultiplier rewardMaxMultiplier) rewardMaxMultiplier"

definition rewardMultiplier :: "jsnum \<Rightarrow> jsnum \<Rightarrow> rat \<Rightarrow> jsnum" where
  "rewardMultiplier rewardMinMultiplier rewardMaxMultiplier u =
     jadd (minMult rewardMinMultiplier rewardMaxMultiplier)
       (jmul (Num u) (jsub (maxMult rewardMinMultiplier rewardMaxMultiplier)
                           (minMult rewardMinMultiplier rewardMaxMultiplier)))"

definition contractReward :: "jsnum \<Rightarrow> jsnum \<Rightarrow> jsnum \<Rightarrow> rat \<Rightarrow> jsnum" where
  "contractReward currentValue rewardMinMultiplier rewardMaxMultiplier u =
     Math_floor (jmul currentValue (rewardMultiplier rewardMinMultiplier rewardMaxMultiplier u))"

text \<open>The label: a pool label that no contract of the render uses, else the positional
  name. The pool \<open>ContractLabels\<close> (constants/contract-labels.js) is a parameter.\<close>

definition pickLabel :: "string list \<Rightarrow> contract list \<Rightarrow> rat \<Rightarrow> int \<Rightarrow> label" where
  "pickLabel ContractLabels renderedContracts u ident =
     (let availableLabels = filter (\<lambda>l. Pool l \<notin> clabel ` set renderedContracts) ContractLabels
      in if availableLabels = [] then Positional (ident + 1)
         else (case elemAt availableLabels (pickIndex u (length availableLabels)) of
                 None \<Rightarrow> NoLabel
               | Some l \<Rightarrow> Pool l))"

text \<open>\<open>generateRandomContract(targetValue, id)\<close>: the choice of the specialist resources, the
  accumulation in the chosen mode, and the contract built from its result. \<open>rendered\<close> and
  \<open>renderedContracts\<close> are the \<open>values\<close> and \<open>contracts\<close> of the render.\<close>

definition chooseSpecialists :: "enat \<Rightarrow> rolls \<Rightarrow> string list" where
  "chooseSpecialists maxResources r =
     (let numSpecialists = (if numSpecialistsRoll r < 1 / 2 then 1 else 2)
      in take (case maxResources of enat m \<Rightarrow> min numSpecialists m | \<infinity> \<Rightarrow> numSpecialists)
           (shuffled r))"

definition accumulate ::
  "valuemap \<Rightarrow> jsnum \<Rightarrow> enat \<Rightarrow> rolls \<Rightarrow> (jsnum \<times> (string \<times> nat) list) outcome option" where
  "accumulate rendered scaledTarget maxResources r =
     (let isSpecialist = (isSpecialistRoll r < 1 / 2)
      in if isSpecialist
         then map_option Returns
                (specialistLoop rendered scaledTarget (chooseSpecialists maxResources r)
                   (picks r) 0 (Num 0) [])
         else generalLoop rendered scaledTarget maxResources (picks r) 0 (Num 0) [])"

definition generateRandomContract ::
  "string list \<Rightarrow> valuemap \<Rightarrow> contract list \<Rightarrow> jsnum \<Rightarrow> jsnum \<Rightarrow> jsnum \<Rightarrow> enat \<Rightarrow> rolls
     \<Rightarrow> jsnum \<Rightarrow> int \<Rightarrow> contract outcome option" where
  "generateRandomContract ContractLabels rendered renderedContracts contractDifficulty
       rewardMinMultiplier rewardMaxMultiplier maxResources r targetValue ident =
     (let scaledTarget = jmul targetValue contractDifficulty
      in (case accumulate rendered scaledTarget maxResources r of
            None \<Rightarrow> None
          | Some Throws \<Rightarrow> Some Throws
          | Some (Returns (currentValue, selectedResources)) \<Rightarrow>
              Some (Returns
                \<lparr>cid = ident,
                 clabel = pickLabel ContractLabels renderedContracts (labelRoll r) ident,
                 cvalue = currentValue,
                 creward = contractReward currentValue rewardMinMultiplier rewardMaxMultiplier
                             (rewardRoll r),
                 cresources = selectedResources,
                 cdifficulty = contractDifficulty,
                 crewardRange = (minMult rewardMinMultiplier rewardMaxMultiplier,
                                 maxMult rewardMinMultiplier rewardMaxMultiplier),
                 cmaxResources = maxResources\<rparr>)))"

text \<open>
  \<open>completeContract(contractId)\<close> and \<open>onContractDecay(contractId)\<close>. Both look the contract
  up in the \<open>contracts\<close> of the render, compute the new values from the \<open>values\<close> of the
  render, and hand them to \<open>setResourceValue\<close>, one call per bundle entry; the updaters of
  the contract collection and of the escalator run on the latest state.
\<close>

definition consumed :: "valuemap \<Rightarrow> string \<Rightarrow> nat \<Rightarrow> jsnum" where
  "consumed rendered nm qty =
     Math_max (Num 2)
       (Math_floor (jmul (orNaN (map_of rendered nm))
                         (jsub (Num 1) (jmul (Num (5 / 100)) (Num (of_nat qty))))))"

definition inflated :: "valuemap \<Rightarrow> string \<Rightarrow> nat \<Rightarrow> jsnum" where
  "inflated rendered nm qty =
     Math_ceil (jmul (orNaN (map_of rendered nm))
                     (jadd (Num 1) (jmul (Num (5 / 100)) (Num (of_nat qty)))))"

definition completeContract ::
  "resource list \<Rightarrow> bool \<Rightarrow> contract list \<Rightarrow> valuemap \<Rightarrow> int \<Rightarrow> app \<Rightarrow> app" where
  "completeContract resourceData ignoreMin renderedContracts rendered contractId st =
     (let contract = find (\<lambda>c. cid c = contractId) renderedContracts
      in \<lparr>engineState =
            (case contract of
               None \<Rightarrow> engineState st
             | Some c \<Rightarrow>
                 fold (\<lambda>(nm, qty).
                         setResourceValue resourceData ignoreMin rendered nm
                           (Direct (JNumber (consumed rendered nm qty))))
                   (cresources c) (engineState st)),
          contracts = filter (\<lambda>c. cid c \<noteq> contractId) (contracts st),
          currentTargetValue = jmul (currentTargetValue st) (Num (11 / 10))\<rparr>)"

definition onContractDecay ::
  "resource list \<Rightarrow> bool \<Rightarrow> contract list \<Rightarrow> valuemap \<Rightarrow> int \<Rightarrow> app \<Rightarrow> app" where
  "onContractDecay resourceData ignoreMin renderedContracts rendered contractId st =
     (let contract = find (\<lambda>c. cid c = contractId) renderedContracts
      in \<lparr>engineState =
            (case contract of
               None \<Rightarrow> engineState st
             | Some c \<Rightarrow>
                 fold (\<lambda>(nm, qty).
                         setResourceValue resourceData ignoreMin rendered nm
                           (Direct (JNumber (inflated rendered nm qty))))
                   (cresources c) (engineState st)),
          contracts = filter (\<lambda>c. cid c \<noteq> contractId) (contracts st),
          currentTargetValue = currentTargetValue st\<rparr>)"


section \<open>Contract completion and decay\<close>












text \<open>Example contracts and a state in which iron is worth 100.\<close>

definition contractOf :: "int \<Rightarrow> (string \<times> nat) list \<Rightarrow> contract" where
  "contractOf ident bundle =
     \<lparr>cid = ident, clabel = Positional (ident + 1), cvalue = Num 0, creward = Num 0,
      cresources = bundle, cdifficulty = Num 1, crewardRange = (Num 1, Num (14 / 10)),
      cmaxResources = \<infinity>\<rparr>"




text \<open>A contract id that is in neither contract list: decay changes nothing, completion
  still multiplies the escalator.\<close>

lemma onContractDecay_inactive:
  assumes "contractId \<notin> cid ` set renderedContracts"
    and "contractId \<notin> cid ` set (contracts st)"
  shows "onContractDecay rd ignoreMin renderedContracts rendered contractId st = st"
proof -
  from assms(1) have "find (\<lambda>c. cid c = contractId) renderedContracts = None"
    by (auto simp: find_None_iff)
  moreover from assms(2) have "filter (\<lambda>c. cid c \<noteq> contractId) (contracts st) = contracts st"
    by (auto simp: filter_id_conv)
  ultimately show ?thesis by (simp add: onContractDecay_def)
qed

lemma completeContract_inactive:
  assumes "contractId \<notin> cid ` set renderedContracts"
    and "contractId \<notin> cid ` set (contracts st)"
  shows "completeContract rd ignoreMin renderedContracts rendered contractId st
     = st\<lparr>currentTargetValue := jmul (currentTargetValue st) (Num (11 / 10))\<rparr>"
proof -
  from assms(1) have "find (\<lambda>c. cid c = contractId) renderedContracts = None"
    by (auto simp: find_None_iff)
  moreover from assms(2) have "filter (\<lambda>c. cid c \<noteq> contractId) (contracts st) = contracts st"
    by (auto simp: filter_id_conv)
  ultimately show ?thesis by (simp add: completeContract_def)
qed

text \<open>
  Claim C4 at a failing input. With no active contract, \<open>completeContract(7)\<close> leaves the
  contracts and the resource state as they are and raises no error, but the escalator goes
  from 50 to 55; \<open>onContractDecay(7)\<close> changes nothing.
\<close>

theorem completeContract_inactive_escalates:
  "completeContract resourceList False [] (values (buildInitial resourceList)) 7
     \<lparr>engineState = buildInitial resourceList, contracts = [], currentTargetValue = Num 50\<rparr>
   = \<lparr>engineState = buildInitial resourceList, contracts = [], currentTargetValue = Num 55\<rparr> \<and>
   onContractDecay resourceList False [] (values (buildInitial resourceList)) 7
     \<lparr>engineState = buildInitial resourceList, contracts = [], currentTargetValue = Num 50\<rparr>
   = \<lparr>engineState = buildInitial resourceList, contracts = [], currentTargetValue = Num 50\<rparr>"
  by code_simp

text \<open>The decay of a contract of 3 coal and 1 steel sets coal to 12 and steel to 16 from
  one render, and leaves steel at 16 with iron + coal = 17.\<close>

lemma decay_example:
  "values (engineState
     (onContractDecay resourceList False [contractOf 1 [(''coal'', 3), (''steel'', 1)]]
        (values (buildInitial resourceList)) 1
        \<lparr>engineState = buildInitial resourceList,
         contracts = [contractOf 1 [(''coal'', 3), (''steel'', 1)]],
         currentTargetValue = Num 50\<rparr>))
   = [(''iron'', Num 5), (''coal'', Num 12), (''oil'', Num 5), (''steel'', Num 16),
      (''plastics'', Num 17), (''consumer_goods'', Num 34)]"
  by code_simp


section \<open>Generated contracts\<close>










section \<open>Termination of the accumulation loops\<close>












text \<open>Without the precondition the loops can run forever: a specialist contract on a
  resource of value 0 with a positive target never returns.\<close>

lemma specialistLoop_diverges:
  "specialistLoop [(''iron'', Num 0)] (Num 50) [''iron''] (\<lambda>i. 0) i (Num 0) sel = None"
proof -
  have aux: "vals = [(''iron'', Num 0)] \<longrightarrow> T = Num 50 \<longrightarrow> spec = [''iron''] \<longrightarrow>
      rnd = (\<lambda>i. 0) \<longrightarrow> cur = Num 0 \<longrightarrow> False"
    if "specialistLoop vals T spec rnd i cur sel = Some y" for vals T spec rnd i cur sel y
    using that
  proof (induction vals T spec rnd i cur sel y
      rule: specialistLoop.raw_induct [rotated 1, consumes 1])
    case (1 loop vals scaledTarget specialistResource rnd i currentValue selectedResources valsa)
    show ?case
    proof (intro impI)
      assume h: "vals = [(''iron'', Num 0)]" "scaledTarget = Num 50"
        "specialistResource = [''iron'']" "rnd = (\<lambda>i. 0)" "currentValue = Num 0"
      with 1(2) have "loop vals scaledTarget specialistResource rnd (Suc i) (Num 0)
          (bump ''iron'' selectedResources) = Some valsa"
        by (simp add: elemAt_def pickIndex_def orNaN_def jgt_def Let_def)
      from 1(1) [OF this] h show False by simp
    qed
  qed
  show ?thesis
  proof (rule ccontr)
    assume "specialistLoop [(''iron'', Num 0)] (Num 50) [''iron''] (\<lambda>i. 0) i (Num 0) sel \<noteq> None"
    then obtain y where
      "specialistLoop [(''iron'', Num 0)] (Num 50) [''iron''] (\<lambda>i. 0) i (Num 0) sel = Some y"
      by blast
    from aux [OF this] show False by simp
  qed
qed

lemma generateRandomContract_diverges:
  "generateRandomContract L [(''iron'', Num 0)] rc (Num 1) lo hi \<infinity>
     \<lparr>isSpecialistRoll = 0, numSpecialistsRoll = 0, shuffled = [''iron''], picks = (\<lambda>i. 0),
      labelRoll = 0, rewardRoll = 0\<rparr> (Num 50) ident = None"
  by (simp add: generateRandomContract_def accumulate_def chooseSpecialists_def
      specialistLoop_diverges)



section \<open>The noise generator (hooks/useEconomicNoise.js)\<close>

text \<open>
  What the noise reads of an entry of \<open>byTier\<close>: \<open>name\<close>, \<open>min\<close> and \<open>value\<close>, written with
  the prefix \<open>e\<close>. \<open>byTierOrder\<close> is the order of \<open>Object.values(byTier).flatMap(...)\<close>: by
  ascending tier, within a tier in declaration order, resources without a tier last.
  A value that is \<open>undefined\<close> is modelled as \<open>NaN\<close>: arithmetic and comparisons treat the
  two alike, and \<open>setResourceValue\<close> rejects both.
\<close>

record entry =
  ename :: string
  emin :: jsnum
  evalue :: jsnum

definition byTierOrder :: "resource list \<Rightarrow> resource list" where
  "byTierOrder resourceData =
     concat (map (\<lambda>t. filter (\<lambda>r. tier r = Some t) resourceData)
               (sort (remdups (List.map_filter tier resourceData))))
     @ filter (\<lambda>r. tier r = None) resourceData"

definition byTierResources :: "resource list \<Rightarrow> valuemap option \<Rightarrow> entry list" where
  "byTierResources resourceData rendered =
     map (\<lambda>r. \<lparr>ename = name r,
                emin = computeMin r rendered,
                evalue = (case rendered of None \<Rightarrow> Num 0 | Some vs \<Rightarrow> orNaN (map_of vs (name r)))\<rparr>)
       (byTierOrder resourceData)"

text \<open>\<open>computeAdjustment(res)\<close>; \<open>rand\<close> and \<open>rand2\<close> are its two random numbers, \<open>None\<close>
  is \<open>null\<close>.\<close>

definition computeAdjustment :: "bool \<Rightarrow> entry \<Rightarrow> rat \<Rightarrow> rat \<Rightarrow> (string \<times> jsnum) option" where
  "computeAdjustment ignoreMin res rand rand2 =
     (if rand < 4 / 10 then Some (ename res, evalue res)
      else if ignoreMin
      then
        (let aboveMinPercentage = jdiv (Math_abs (jsub (evalue res) (emin res))) (emin res);
             pDown = jadd (Num (5 / 10)) (jmul (Num (4 / 10)) aboveMinPercentage);
             towardsMin = (if jgt (evalue res) (emin res) then Num (- 1) else Num 1);
             direction = (if jlt (Num rand2) pDown then towardsMin else jneg towardsMin);
             target = jadd (evalue res) direction;
             target' = (if jlt target (Num 1) then Num 1 else target)
         in if jeq target' (evalue res) then None else Some (ename res, target'))
      else
        (let aboveMinPercentage = jdiv (jsub (evalue res) (emin res)) (emin res);
             pDown = jadd (Num (1 / 10)) (jmul (Num (8 / 10)) aboveMinPercentage);
             direction = (if jlt (Num rand2) pDown then Num (- 1) else Num 1);
             target = jadd (evalue res) direction;
             target' = (if jlt target (emin res) then emin res else target)
         in if jeq target' (evalue res) then None else Some (ename res, target')))"

text \<open>
  \<open>tick()\<close>: one adjustment per entry, applied through \<open>setResourceValue\<close>. The entries come
  from the latest render (\<open>rendered\<close>); the \<open>setResourceValue\<close> that \<open>tick\<close> captured may be
  older, and clamps against the values of its own render (\<open>stale\<close>). \<open>rolls i\<close> are the two
  random numbers for the entry at position \<open>i\<close>.
\<close>

definition tickStep ::
  "resource list \<Rightarrow> bool \<Rightarrow> valuemap \<Rightarrow> (nat \<Rightarrow> rat \<times> rat) \<Rightarrow> nat \<times> entry \<Rightarrow> engine \<Rightarrow> engine" where
  "tickStep resourceData ignoreMin stale rolls p st =
     (case computeAdjustment ignoreMin (snd p) (fst (rolls (fst p))) (snd (rolls (fst p))) of
        None \<Rightarrow> st
      | Some (nm, next) \<Rightarrow>
          setResourceValue resourceData ignoreMin stale nm (Direct (JNumber next)) st)"

definition tick ::
  "resource list \<Rightarrow> bool \<Rightarrow> valuemap option \<Rightarrow> valuemap \<Rightarrow> (nat \<Rightarrow> rat \<times> rat) \<Rightarrow> engine \<Rightarrow> engine" where
  "tick resourceData ignoreMin rendered stale rolls st =
     fold (tickStep resourceData ignoreMin stale rolls)
       (List.enumerate 0 (byTierResources resourceData rendered)) st"

section \<open>The noise boundary\<close>

lemma jle_refl: "x \<noteq> NaN \<Longrightarrow> jle x x"
  by (cases x) simp_all

lemma jlt_imp_jle: "jlt a b \<Longrightarrow> jle a b"
  by (cases a; cases b) simp_all

lemma jle_trans: "jle a b \<Longrightarrow> jle b c \<Longrightarrow> jle a c"
  by (cases a; cases b; cases c) simp_all

lemma jle_not_jlt: "jle a b \<Longrightarrow> \<not> jlt b a"
  by (cases a; cases b) simp_all

lemma computeAdjustment_at_min:
  assumes "evalue res = emin res" and "emin res \<noteq> NaN"
  shows "computeAdjustment False res rand rand2 = None \<or>
         computeAdjustment False res rand rand2 = Some (ename res, evalue res) \<or>
         computeAdjustment False res rand rand2 = Some (ename res, jadd (evalue res) (Num 1))"
proof (cases "emin res")
  case (Num x)
  with assms show ?thesis
    by (auto simp: computeAdjustment_def Let_def jsub_def jeq_def)
next
  case PInf
  with assms show ?thesis
    by (auto simp: computeAdjustment_def Let_def jsub_def jeq_def)
next
  case NInf
  with assms show ?thesis
    by (auto simp: computeAdjustment_def Let_def jsub_def jeq_def)
next
  case NaN
  with assms show ?thesis by simp
qed

lemma jle_add_one: "x \<noteq> NaN \<Longrightarrow> jle x (jadd x (Num 1))"
  by (cases x) simp_all


text \<open>The value stored for \<open>n\<close> is at least \<open>m\<close>. A cascade only raises values, and a call
  on another resource touches \<open>n\<close> only through a cascade.\<close>

definition notBelow :: "string \<Rightarrow> jsnum \<Rightarrow> valuemap \<Rightarrow> bool" where
  "notBelow n m vals = (\<exists>v. map_of vals n = Some v \<and> jle m v)"

lemma cascadeDependents_notBelow:
  assumes "cascadeDependents rd ds (newVals, adj, queue, visited) = (newVals', adj', queue', visited')"
    and "notBelow n m newVals"
  shows "notBelow n m newVals'"
  using assms
proof (induction ds arbitrary: newVals adj queue visited)
  case Nil
  then show ?case by simp
next
  case (Cons depName ds)
  show ?case
  proof (cases "resourceMap rd depName")
    case None
    with Cons show ?thesis by simp
  next
    case (Some depResource)
    let ?depMin = "computeMin depResource (Some newVals)"
    show ?thesis
    proof (cases "jlt (orNaN (map_of newVals depName)) ?depMin")
      case False
      with Some Cons show ?thesis by simp
    next
      case True
      let ?nv = "AList.update depName ?depMin newVals"
      have inv: "notBelow n m ?nv"
      proof (cases "depName = n")
        case False
        with Cons.prems(2) show ?thesis by (simp add: notBelow_def update_conv')
      next
        case eq: True
        from Cons.prems(2) obtain v where v: "map_of newVals n = Some v" "jle m v"
          by (auto simp: notBelow_def)
        with True eq have "jlt v ?depMin" by (simp add: orNaN_def)
        then have "jle v ?depMin" by (rule jlt_imp_jle)
        with v(2) have "jle m ?depMin" by (rule jle_trans)
        with eq show ?thesis by (simp add: notBelow_def update_conv')
      qed
      from Cons.prems(1) Some True obtain a q v where
        "cascadeDependents rd ds (?nv, a, q, v) = (newVals', adj', queue', visited')"
        by (auto simp: Let_def split: if_splits)
      from Cons.IH [OF this inv] show ?thesis .
    qed
  qed
qed

lemma cascade_notBelow:
  assumes "cascade rd queue visited newVals adj = (newVals', adj')"
    and "notBelow n m newVals"
  shows "notBelow n m newVals'"
  using assms
proof (induction rd queue visited newVals adj rule: cascade.induct)
  case (1 rd visited newVals cascadeAdjustments)
  then show ?case by (simp add: cascade.simps)
next
  case (2 rd current queue visited newVals cascadeAdjustments)
  obtain nv1 adj1 q1 v1 where step:
    "cascadeDependents rd (dependentsMap rd current)
       (newVals, cascadeAdjustments, queue, visited) = (nv1, adj1, q1, v1)"
    by (metis prod_cases4)
  from cascadeDependents_notBelow [OF step "2.prems"(2)] have inv: "notBelow n m nv1" .
  from "2.prems"(1) step have "cascade rd q1 v1 nv1 adj1 = (newVals', adj')"
    by (simp add: cascade.simps)
  from "2.IH" [OF step [symmetric] refl refl this inv] show ?case .
qed

lemma setResourceValue_applied_values:
  assumes "resourceMap rd nm = Some r" and "resolveNext arg (map_of (values st) nm) = Some nv"
    and nxt_def: "nxt = (if \<not> ignoreMin \<and> jlt nv (computeMin r (Some stale))
                   then computeMin r (Some stale) else nv)"
  shows "values (setResourceValue rd ignoreMin stale nm arg st) = AList.update nm nxt (values st) \<or>
         (\<exists>adj. cascade rd [nm] {nm} (AList.update nm nxt (values st)) []
                  = (values (setResourceValue rd ignoreMin stale nm arg st), adj))"
proof -
  define casc where "casc = (if \<not> ignoreMin \<and> jgt nxt (orNaN (map_of (values st) nm))
             then cascade rd [nm] {nm} (AList.update nm nxt (values st)) []
             else (AList.update nm nxt (values st), []))"
  obtain newVals' adj where c: "casc = (newVals', adj)" by (cases casc)
  have v: "values (setResourceValue rd ignoreMin stale nm arg st) = newVals'"
    using assms(1,2) c unfolding setResourceValue_def Let_def casc_def nxt_def by simp
  from c have "newVals' = AList.update nm nxt (values st) \<or>
      cascade rd [nm] {nm} (AList.update nm nxt (values st)) [] = (newVals', adj)"
    unfolding casc_def by (auto split: if_splits)
  with v show ?thesis by auto
qed

lemma setResourceValue_values:
  "values (setResourceValue rd ignoreMin stale nm arg st) = values st \<or>
   (\<exists>x. values (setResourceValue rd ignoreMin stale nm arg st) = AList.update nm x (values st)) \<or>
   (\<exists>x adj. cascade rd [nm] {nm} (AList.update nm x (values st)) []
               = (values (setResourceValue rd ignoreMin stale nm arg st), adj))"
proof (cases "resourceMap rd nm")
  case None
  then show ?thesis by (simp add: setResourceValue_def)
next
  case (Some r)
  show ?thesis
  proof (cases "resolveNext arg (map_of (values st) nm)")
    case None
    with Some show ?thesis by (simp add: setResourceValue_def)
  next
    case nv: (Some nv)
    from setResourceValue_applied_values [OF Some nv refl, of ignoreMin stale]
    show ?thesis by blast
  qed
qed

lemma setResourceValue_other:
  assumes "notBelow n m (values st)" and "nm \<noteq> n"
  shows "notBelow n m (values (setResourceValue rd ignoreMin stale nm arg st))"
proof -
  let ?st' = "setResourceValue rd ignoreMin stale nm arg st"
  have upd: "notBelow n m (AList.update nm x (values st))" for x
    using assms by (simp add: notBelow_def update_conv')
  from setResourceValue_values [of rd ignoreMin stale nm arg st]
  consider "values ?st' = values st"
    | x where "values ?st' = AList.update nm x (values st)"
    | x adj where "cascade rd [nm] {nm} (AList.update nm x (values st)) [] = (values ?st', adj)"
    by blast
  then show ?thesis
  proof cases
    case 1
    with assms(1) show ?thesis by simp
  next
    case 2
    with upd show ?thesis by simp
  next
    case 3
    from cascade_notBelow [OF 3 upd] show ?thesis .
  qed
qed

lemma setResourceValue_same:
  assumes "resourceMap rd n = Some r" and "jle m next"
  shows "notBelow n m (values (setResourceValue rd False stale n (Direct (JNumber next)) st))"
proof -
  let ?st' = "setResourceValue rd False stale n (Direct (JNumber next)) st"
  from assms(2) have nn: "next \<noteq> NaN" by (cases m; cases "next") simp_all
  then have res: "resolveNext (Direct (JNumber next)) (map_of (values st) n) = Some next"
    by (simp add: resolveNext_def)
  define nxt where "nxt = (if \<not> False \<and> jlt next (computeMin r (Some stale))
             then computeMin r (Some stale) else next)"
  have "jle next nxt"
    unfolding nxt_def using nn by (auto intro: jlt_imp_jle jle_refl)
  with assms(2) have "jle m nxt" by (rule jle_trans)
  then have upd: "notBelow n m (AList.update n nxt (values st))"
    by (simp add: notBelow_def update_conv')
  from setResourceValue_applied_values [OF assms(1) res nxt_def]
  consider "values ?st' = AList.update n nxt (values st)"
    | adj where "cascade rd [n] {n} (AList.update n nxt (values st)) [] = (values ?st', adj)"
    by blast
  then show ?thesis
  proof cases
    case 1
    with upd show ?thesis by simp
  next
    case 2
    from cascade_notBelow [OF 2 upd] show ?thesis .
  qed
qed


lemma computeAdjustment_name:
  "computeAdjustment ignoreMin res rand rand2 = Some (nm, next) \<Longrightarrow> nm = ename res"
  by (auto simp: computeAdjustment_def Let_def split: if_splits)

lemma byTierOrder_subset: "set (byTierOrder rd) \<subseteq> set rd"
  by (auto simp: byTierOrder_def)

lemma byTierResources_entry:
  assumes "e \<in> set (byTierResources rd (Some vals))"
  shows "\<exists>r' \<in> set rd. e = \<lparr>ename = name r', emin = computeMin r' (Some vals),
                               evalue = orNaN (map_of vals (name r'))\<rparr>"
  using assms byTierOrder_subset [of rd] by (auto simp: byTierResources_def)

lemma tickStep_notBelow:
  assumes d: "distinct (map name rd)" and r: "r \<in> set rd"
    and v: "map_of vals (name r) = Some v" and m: "computeMin r (Some vals) = v"
    and nn: "v \<noteq> NaN"
    and e: "e \<in> set (byTierResources rd (Some vals))"
    and inv: "notBelow (name r) v (values st)"
  shows "notBelow (name r) v (values (tickStep rd False stale rolls (i, e) st))"
proof -
  from byTierResources_entry [OF e] obtain r' where r': "r' \<in> set rd"
    and e_def: "e = \<lparr>ename = name r', emin = computeMin r' (Some vals),
                      evalue = orNaN (map_of vals (name r'))\<rparr>" by blast
  show ?thesis
  proof (cases "computeAdjustment False e (fst (rolls i)) (snd (rolls i))")
    case None
    with inv show ?thesis by (simp add: tickStep_def)
  next
    case (Some p)
    obtain nm nxt where p: "p = (nm, nxt)" by (cases p)
    from computeAdjustment_name [OF Some [unfolded p]] have nm: "nm = name r'"
      by (simp add: e_def)
    have step: "tickStep rd False stale rolls (i, e) st
        = setResourceValue rd False stale nm (Direct (JNumber nxt)) st"
      using Some p by (simp add: tickStep_def)
    show ?thesis
    proof (cases "name r' = name r")
      case False
      with nm have "nm \<noteq> name r" by simp
      from setResourceValue_other [OF inv this] show ?thesis by (simp add: step)
    next
      case True
      from d have "inj_on name (set rd)" by (simp add: distinct_map)
      with True r r' have "r' = r" by (auto dest: inj_onD)
      with e_def v m have ev: "evalue e = emin e" and em: "emin e = v"
        by (simp_all add: orNaN_def)
      from em nn have "emin e \<noteq> NaN" by simp
      from computeAdjustment_at_min [OF ev this, of "fst (rolls i)" "snd (rolls i)"] Some p
      have "nxt = v \<or> nxt = jadd v (Num 1)" using ev em by auto
      with nn have "jle v nxt" by (auto intro: jle_refl jle_add_one)
      from setResourceValue_same [OF rawMap_distinct [OF d r] this]
      show ?thesis using nm True by (simp add: step)
    qed
  qed
qed

lemma tick_fold_notBelow:
  assumes d: "distinct (map name rd)" and r: "r \<in> set rd"
    and v: "map_of vals (name r) = Some v" and m: "computeMin r (Some vals) = v"
    and nn: "v \<noteq> NaN"
    and ps: "snd ` set ps \<subseteq> set (byTierResources rd (Some vals))"
    and inv: "notBelow (name r) v (values st)"
  shows "notBelow (name r) v (values (fold (tickStep rd False stale rolls) ps st))"
  using ps inv
proof (induction ps arbitrary: st)
  case Nil
  then show ?case by simp
next
  case (Cons p ps)
  obtain i e where p: "p = (i, e)" by (cases p)
  with Cons.prems(1) have e: "e \<in> set (byTierResources rd (Some vals))" by auto
  from tickStep_notBelow [OF d r v m nn e Cons.prems(2)]
  have "notBelow (name r) v (values (tickStep rd False stale rolls p st))" by (simp add: p)
  with Cons.IH Cons.prems(1) show ?case by simp
qed

text \<open>
  Claim C9. With \<open>ignoreMin\<close> off, for a resource whose value equals its computed minimum
  when the tick starts: its adjustment is \<open>null\<close>, its value again, or its value plus 1; and
  after the tick, whatever the random numbers and whatever the tick did to other resources,
  its stored value is not below that minimum.
\<close>

theorem noise_boundary:
  assumes "distinct (map name rd)" and "r \<in> set rd"
    and "map_of (values st) (name r) = Some v"
    and "computeMin r (Some (values st)) = v"
    and "v \<noteq> NaN"
  shows "(computeAdjustment False \<lparr>ename = name r, emin = v, evalue = v\<rparr> rand rand2 = None \<or>
          computeAdjustment False \<lparr>ename = name r, emin = v, evalue = v\<rparr> rand rand2
            = Some (name r, v) \<or>
          computeAdjustment False \<lparr>ename = name r, emin = v, evalue = v\<rparr> rand rand2
            = Some (name r, jadd v (Num 1))) \<and>
         (\<exists>v'. map_of (values (tick rd False (Some (values st)) stale rolls st)) (name r) = Some v' \<and>
               jle v v' \<and> \<not> jlt v' v)"
proof -
  have "notBelow (name r) v (values st)"
    using assms(3,5) by (simp add: notBelow_def jle_refl)
  moreover have "snd ` set (List.enumerate 0 (byTierResources rd (Some (values st))))
      \<subseteq> set (byTierResources rd (Some (values st)))"
    by (auto simp: in_set_enumerate_eq)
  ultimately have "notBelow (name r) v
      (values (tick rd False (Some (values st)) stale rolls st))"
    unfolding tick_def
    by (intro tick_fold_notBelow [OF assms(1,2,3,4,5)])
  then have "\<exists>v'. map_of (values (tick rd False (Some (values st)) stale rolls st)) (name r)
      = Some v' \<and> jle v v' \<and> \<not> jlt v' v"
    by (auto simp: notBelow_def dest: jle_not_jlt)
  moreover from computeAdjustment_at_min [of "\<lparr>ename = name r, emin = v, evalue = v\<rparr>" rand rand2]
    assms(5)
  have "computeAdjustment False \<lparr>ename = name r, emin = v, evalue = v\<rparr> rand rand2 = None \<or>
          computeAdjustment False \<lparr>ename = name r, emin = v, evalue = v\<rparr> rand rand2
            = Some (name r, v) \<or>
          computeAdjustment False \<lparr>ename = name r, emin = v, evalue = v\<rparr> rand rand2
            = Some (name r, jadd v (Num 1))" by simp
  ultimately show ?thesis by blast
qed

text \<open>A tick on the initial state in which iron goes up and every other resource keeps
  its value.\<close>

definition noiseRolls :: "nat \<Rightarrow> rat \<times> rat" where
  "noiseRolls i = (if i = 0 then (1 / 2, 1 / 2) else (1 / 4, 0))"

theorem noise_boundary_witness:
  "distinct (map name resourceList) \<and>
   \<lparr>name = ''steel'', components = [''iron'', ''coal''], rmin = None, tier = Some 2\<rparr>
     \<in> set resourceList \<and>
   map_of (values (buildInitial resourceList)) ''steel'' = Some (Num 15) \<and>
   computeMin \<lparr>name = ''steel'', components = [''iron'', ''coal''], rmin = None, tier = Some 2\<rparr>
     (Some (values (buildInitial resourceList))) = Num 15 \<and>
   computeAdjustment False \<lparr>ename = ''steel'', emin = Num 15, evalue = Num 15\<rparr> (1 / 2) (1 / 20)
     = None \<and>
   computeAdjustment False \<lparr>ename = ''steel'', emin = Num 15, evalue = Num 15\<rparr> (1 / 2) (1 / 2)
     = Some (''steel'', Num 16) \<and>
   values (tick resourceList False (Some (values (buildInitial resourceList)))
             (values (buildInitial resourceList)) noiseRolls (buildInitial resourceList))
     = [(''iron'', Num 6), (''coal'', Num 10), (''oil'', Num 5), (''steel'', Num 15),
        (''plastics'', Num 15), (''consumer_goods'', Num 30)] \<and>
   \<not> jlt (Num 15) (Num 15)"
proof -
  let ?steel = "\<lparr>name = ''steel'', components = [''iron'', ''coal''], rmin = None, tier = Some 2\<rparr>"
  have h1: "distinct (map name resourceList)" by code_simp
  have h2: "?steel \<in> set resourceList" by code_simp
  have h3: "map_of (values (buildInitial resourceList)) (name ?steel) = Some (Num 15)"
    by code_simp
  have h4: "computeMin ?steel (Some (values (buildInitial resourceList))) = Num 15"
    by code_simp
  have h5: "Num 15 \<noteq> NaN" by simp
  have a1: "computeAdjustment False \<lparr>ename = ''steel'', emin = Num 15, evalue = Num 15\<rparr>
      (1 / 2) (1 / 20) = None" by code_simp
  have a2: "computeAdjustment False \<lparr>ename = ''steel'', emin = Num 15, evalue = Num 15\<rparr>
      (1 / 2) (1 / 2) = Some (''steel'', Num 16)" by code_simp
  have t: "values (tick resourceList False (Some (values (buildInitial resourceList)))
             (values (buildInitial resourceList)) noiseRolls (buildInitial resourceList))
     = [(''iron'', Num 6), (''coal'', Num 10), (''oil'', Num 5), (''steel'', Num 15),
        (''plastics'', Num 15), (''consumer_goods'', Num 30)]" by code_simp
  from noise_boundary [OF h1 h2 h3 h4 h5, of "1 / 2" "1 / 2"
      "values (buildInitial resourceList)" noiseRolls] h1 h2 h3 h4 a1 a2 t
  show ?thesis by simp
qed

end
